theory Spec2Isabelle
  imports Main "HOL-Library.Word" "HOL-Library.Multiset"
begin

section \<open>The data processor of \<^verbatim>\<open>samples/data_processor.cpp\<close>\<close>

text \<open>
  The class \<^verbatim>\<open>DataProcessor\<close> owns one \<^verbatim>\<open>std::vector<int>\<close>. Its methods append to
  it, sort it, write it to \<^verbatim>\<open>std::cout\<close> and add it up. The program state is the vector
  together with the characters written to standard output so far.

  A C++ \<^verbatim>\<open>int\<close> is a 32-bit two's-complement value: it is a \<open>32 word\<close>, read by
  \<open>sint\<close>. The comparison \<^verbatim>\<open><\<close> of \<^verbatim>\<open>int\<close> is the signed one, and \<^verbatim>\<open>+=\<close> is taken to
  wrap around modulo \<open>2 ^ 32\<close> (the language itself leaves signed overflow undefined).
\<close>

subsection \<open>State\<close>

type_synonym int32 = "32 word"

type_synonym ostream = string

record state =
  data :: "int32 list"
  cout :: ostream

text \<open>\<^verbatim>\<open>DataProcessor processor;\<close> default-constructs an empty vector.\<close>

definition construct :: "ostream \<Rightarrow> state" where
  "construct out = \<lparr>data = [], cout = out\<rparr>"

subsection \<open>Writing to the stream\<close>

text \<open>
  \<^verbatim>\<open>std::cout << value\<close> for an \<^verbatim>\<open>int\<close> writes its decimal form: a minus sign for a
  negative value, then the digits without leading zeros.
\<close>

definition digit_char :: "nat \<Rightarrow> char" where
  "digit_char d = ''0123456789'' ! d"

fun to_digits :: "nat \<Rightarrow> string" where
  "to_digits n =
     (if n < 10 then [digit_char n] else to_digits (n div 10) @ [digit_char (n mod 10)])"

declare to_digits.simps [simp del]

definition decimal :: "int \<Rightarrow> string" where
  "decimal i = (if i < 0 then CHR ''-'' # to_digits (nat (- i)) else to_digits (nat i))"

text \<open>\<^verbatim>\<open>std::endl\<close> writes the line break (and flushes, which leaves no trace here).\<close>

definition endl :: string where
  "endl = [CHR 0x0A]"

definition put :: "string \<Rightarrow> state \<Rightarrow> state" where
  "put txt s = s\<lparr>cout := cout s @ txt\<rparr>"

subsection \<open>The methods\<close>

definition addData :: "int32 \<Rightarrow> state \<Rightarrow> state" where
  "addData v s = s\<lparr>data := data s @ [v]\<rparr>"

text \<open>
  \<^verbatim>\<open>std::sort(data.begin(), data.end())\<close> leaves the vector in ascending order of
  \<^verbatim>\<open>operator<\<close> on \<^verbatim>\<open>int\<close>, that is of the signed value. Equal \<^verbatim>\<open>int\<close>s are the same
  value, so the result does not depend on the sorting algorithm (see \<open>sortData_unique\<close>).
\<close>

definition sortData :: "state \<Rightarrow> state" where
  "sortData s = s\<lparr>data := sort_key sint (data s)\<rparr>"

text \<open>The loop of \<^verbatim>\<open>printData\<close>: each element, then one space.\<close>

fun printData_loop :: "int32 list \<Rightarrow> state \<Rightarrow> state" where
  "printData_loop [] s = s"
| "printData_loop (v # rest) s = printData_loop rest (put '' '' (put (decimal (sint v)) s))"

definition printData :: "state \<Rightarrow> state" where
  "printData s = put endl (printData_loop (data s) s)"

text \<open>The loop of \<^verbatim>\<open>getSum\<close>, with the local \<^verbatim>\<open>int sum\<close> as accumulator.\<close>

fun getSum_loop :: "int32 list \<Rightarrow> int32 \<Rightarrow> int32" where
  "getSum_loop [] acc = acc"
| "getSum_loop (v # rest) acc = getSum_loop rest (acc + v)"

definition getSum :: "state \<Rightarrow> int32 \<times> state" where
  "getSum s = (getSum_loop (data s) 0, s)"

subsection \<open>The driver\<close>

definition main :: "ostream \<Rightarrow> int \<times> ostream" where
  "main out =
     (let processor = construct out;
          processor = addData 5 processor;
          processor = addData 2 processor;
          processor = addData 8 processor;
          processor = addData 1 processor;
          processor = put ''Original data: '' processor;
          processor = printData processor;
          processor = sortData processor;
          processor = put ''Sorted data: '' processor;
          processor = printData processor;
          processor = put ''Sum: '' processor;
          (r, processor) = getSum processor;
          processor = put (decimal (sint r)) processor;
          processor = put endl processor
      in (0, cout processor))"

subsection \<open>Call histories\<close>

text \<open>
  A client can only call the four public methods. A history is the list of calls made on
  a freshly constructed processor, oldest first.
\<close>

datatype call = AddData int32 | SortData | PrintData | GetSum

fun step :: "call \<Rightarrow> state \<Rightarrow> state" where
  "step (AddData v) s = addData v s"
| "step SortData s = sortData s"
| "step PrintData s = printData s"
| "step GetSum s = snd (getSum s)"

definition exec :: "call list \<Rightarrow> state \<Rightarrow> state" where
  "exec calls s = fold step calls s"

text \<open>The values a history has appended, in the order of the calls.\<close>

fun appended :: "call list \<Rightarrow> int32 list" where
  "appended [] = []"
| "appended (AddData v # calls) = v # appended calls"
| "appended (c # calls) = appended calls"

subsection \<open>Notions the properties are stated with\<close>

text \<open>The signed 32-bit range, and reduction of an integer into it modulo \<open>2 ^ 32\<close>.\<close>

definition in_int32 :: "int \<Rightarrow> bool" where
  "in_int32 k = (- (2 ^ 31) \<le> k \<and> k < 2 ^ 31)"

definition wrap32 :: "int \<Rightarrow> int" where
  "wrap32 k = (k + 2 ^ 31) mod 2 ^ 32 - 2 ^ 31"

text \<open>The arithmetic (unbounded) sum of the stored values.\<close>

definition arith_sum :: "int32 list \<Rightarrow> int" where
  "arith_sum xs = sum_list (map sint xs)"

text \<open>Every partial sum met while adding \<open>xs\<close> to \<open>acc\<close>, left to right, is in range.\<close>

fun partial_sums_fit :: "int \<Rightarrow> int32 list \<Rightarrow> bool" where
  "partial_sums_fit acc [] = True"
| "partial_sums_fit acc (v # rest) =
     (in_int32 (acc + sint v) \<and> partial_sums_fit (acc + sint v) rest)"

text \<open>Each element is at most its right neighbour, as signed values.\<close>

fun ascending :: "int32 list \<Rightarrow> bool" where
  "ascending (a # b # rest) = (sint a \<le> sint b \<and> ascending (b # rest))"
| "ascending xs = True"

text \<open>Words with exactly one space between neighbours.\<close>

fun separated :: "string list \<Rightarrow> string" where
  "separated [] = []"
| "separated [w] = w"
| "separated (w # ws) = w @ '' '' @ separated ws"

text \<open>Reading a decimal form back, to check \<open>decimal\<close> against.\<close>

definition digit_value :: "char \<Rightarrow> nat" where
  "digit_value c = of_char c - 48"

definition from_digits :: "string \<Rightarrow> nat" where
  "from_digits cs = foldl (\<lambda>a c. 10 * a + digit_value c) 0 cs"

definition read_decimal :: "string \<Rightarrow> int" where
  "read_decimal cs =
     (case cs of
        [] \<Rightarrow> 0
      | c # rest \<Rightarrow> if c = CHR ''-'' then - int (from_digits rest) else int (from_digits cs))"

section \<open>Properties of the operations\<close>

subsection \<open>The output stream and the decimal form\<close>

lemma data_put [simp]: "data (put txt s) = data s"
  by (simp add: put_def)

lemma cout_put [simp]: "cout (put txt s) = cout s @ txt"
  by (simp add: put_def)

lemma printData_loop_data [simp]: "data (printData_loop xs s) = data s"
  by (induction xs arbitrary: s) simp_all

lemma printData_loop_cout:
  "cout (printData_loop xs s) = cout s @ concat (map (\<lambda>v. decimal (sint v) @ '' '') xs)"
  by (induction xs arbitrary: s) simp_all

lemma printData_cout:
  "cout (printData s) = cout s @ concat (map (\<lambda>v. decimal (sint v) @ '' '') (data s)) @ endl"
  by (simp add: printData_def printData_loop_cout)

lemma digit_char_in: "d < 10 \<Longrightarrow> digit_char d \<in> set ''0123456789''"
  unfolding digit_char_def by (rule nth_mem) simp

lemma to_digits_chars: "set (to_digits n) \<subseteq> set ''0123456789''"
proof (induction n rule: to_digits.induct)
  case (1 n)
  show ?case
  proof (cases "n < 10")
    case True
    then have "to_digits n = [digit_char n]"
      by (simp add: to_digits.simps [of n])
    then show ?thesis using digit_char_in [OF True] by simp
  next
    case False
    then have "to_digits n = to_digits (n div 10) @ [digit_char (n mod 10)]"
      by (simp add: to_digits.simps [of n])
    moreover have "digit_char (n mod 10) \<in> set ''0123456789''"
      by (rule digit_char_in) simp
    moreover have "set (to_digits (n div 10)) \<subseteq> set ''0123456789''"
      using False by (rule "1.IH")
    ultimately show ?thesis by simp
  qed
qed

lemma decimal_chars: "set (decimal i) \<subseteq> set ''-0123456789''"
proof -
  have "set ''0123456789'' \<subseteq> set ''-0123456789''" by simp
  with to_digits_chars have "set (to_digits n) \<subseteq> set ''-0123456789''" for n
    by (rule subset_trans)
  then show ?thesis by (simp add: decimal_def)
qed

lemma decimal_no_separator: "CHR '' '' \<notin> set (decimal i) \<and> CHR 0x0A \<notin> set (decimal i)"
proof -
  have "CHR '' '' \<notin> set ''-0123456789''" and "CHR 0x0A \<notin> set ''-0123456789''"
    by simp_all
  with decimal_chars [of i] show ?thesis by blast
qed


lemma digit_value_digit_char: "d < 10 \<Longrightarrow> digit_value (digit_char d) = d"
proof -
  assume "d < 10"
  then consider "d = 0" | "d = 1" | "d = 2" | "d = 3" | "d = 4"
    | "d = 5" | "d = 6" | "d = 7" | "d = 8" | "d = 9"
    by atomize_elim arith
  then show ?thesis
    by cases (simp_all add: digit_value_def digit_char_def)
qed

lemma from_digits_snoc: "from_digits (cs @ [c]) = 10 * from_digits cs + digit_value c"
  by (simp add: from_digits_def)

lemma from_digits_to_digits: "from_digits (to_digits n) = n"
proof (induction n rule: to_digits.induct)
  case (1 n)
  show ?case
  proof (cases "n < 10")
    case True
    then have "to_digits n = [digit_char n]"
      by (simp add: to_digits.simps [of n])
    then show ?thesis
      using digit_value_digit_char [OF True] by (simp add: from_digits_def)
  next
    case False
    then have "to_digits n = to_digits (n div 10) @ [digit_char (n mod 10)]"
      by (simp add: to_digits.simps [of n])
    moreover have "from_digits (to_digits (n div 10)) = n div 10"
      using False by (rule "1.IH")
    moreover have "digit_value (digit_char (n mod 10)) = n mod 10"
      by (rule digit_value_digit_char) simp
    ultimately show ?thesis
      by (simp add: from_digits_snoc)
  qed
qed

lemma to_digits_not_Nil: "to_digits n \<noteq> []"
  by (subst to_digits.simps) simp

lemma read_decimal_decimal: "read_decimal (decimal i) = i"
proof (cases "i < 0")
  case True
  then show ?thesis
    by (simp add: decimal_def read_decimal_def from_digits_to_digits)
next
  case False
  obtain c rest where cs: "to_digits (nat i) = c # rest"
    using to_digits_not_Nil [of "nat i"] by (cases "to_digits (nat i)") simp_all
  then have "c \<in> set (to_digits (nat i))" by simp
  then have "c \<in> set ''0123456789''" using to_digits_chars by blast
  then have "c \<noteq> CHR ''-''" by auto
  with False cs show ?thesis
    using from_digits_to_digits [of "nat i"]
    by (simp add: decimal_def read_decimal_def)
qed


lemma separated_concat:
  "concat (map (\<lambda>w. w @ '' '') ws) = separated ws @ (if ws = [] then [] else '' '')"
  by (induction ws rule: separated.induct) simp_all

lemma separated_chars:
  "c \<in> set (separated ws) \<Longrightarrow> c = CHR '' '' \<or> (\<exists>w\<in>set ws. c \<in> set w)"
  by (induction ws rule: separated.induct) auto

subsection \<open>Sums\<close>

lemma getSum_loop_eq: "getSum_loop xs acc = acc + sum_list xs"
  by (induction xs arbitrary: acc) (simp_all add: add.assoc)

lemma sint_sum_list:
  "sint (sum_list xs) = signed_take_bit 31 (arith_sum xs)" for xs :: "int32 list"
proof (induction xs)
  case Nil
  show ?case by (simp add: arith_sum_def)
next
  case (Cons x xs)
  have "sint (x + sum_list xs) = signed_take_bit 31 (sint x + sint (sum_list xs))"
    by (simp add: sint_word_ariths)
  also have "\<dots> = signed_take_bit 31 (sint x + signed_take_bit 31 (arith_sum xs))"
    by (simp only: Cons.IH)
  also have "\<dots> = signed_take_bit 31 (sint x + arith_sum xs)"
    by (metis signed_take_bit_add signed_take_bit_signed_take_bit min.idem)
  finally show ?case by (simp add: arith_sum_def)
qed

lemma signed_take_bit_wrap32: "signed_take_bit 31 k = wrap32 k"
  by (simp add: wrap32_def signed_take_bit_eq_take_bit_shift take_bit_eq_mod)

lemma wrap32_id_iff: "wrap32 k = k \<longleftrightarrow> in_int32 k"
  unfolding signed_take_bit_wrap32 [symmetric] in_int32_def
  by (simp add: signed_take_bit_int_eq_self_iff)

lemma sint_getSum: "sint (fst (getSum s)) = wrap32 (arith_sum (data s))"
  by (simp add: getSum_def getSum_loop_eq sint_sum_list signed_take_bit_wrap32)

lemma partial_sums_fit_total:
  "partial_sums_fit acc xs \<Longrightarrow> in_int32 acc \<Longrightarrow> in_int32 (acc + arith_sum xs)"
proof (induction xs arbitrary: acc)
  case Nil
  then show ?case by (simp add: arith_sum_def)
next
  case (Cons v rest)
  from Cons.prems(1) have "in_int32 (acc + sint v)" and "partial_sums_fit (acc + sint v) rest"
    by simp_all
  then have "in_int32 (acc + sint v + arith_sum rest)"
    by (rule Cons.IH [rotated])
  then show ?case by (simp add: arith_sum_def add.assoc)
qed

lemma arith_sum_mset: "mset xs = mset ys \<Longrightarrow> arith_sum xs = arith_sum ys"
proof -
  assume "mset xs = mset ys"
  then have "sum_mset (image_mset sint (mset xs)) = sum_mset (image_mset sint (mset ys))"
    by simp
  then show ?thesis
    by (simp only: arith_sum_def flip: sum_mset_sum_list mset_map)
qed

lemma sum_list_sort_key: "sum_list (sort_key f xs) = sum_list xs" for xs :: "int32 list"
proof -
  have "sum_mset (mset (sort_key f xs)) = sum_mset (mset xs)" by simp
  then show ?thesis by (simp only: sum_mset_sum_list)
qed

subsection \<open>Sorting\<close>

text \<open>
  Any ascending rearrangement of the vector is the one \<open>sortData\<close> computes: the model of
  \<^verbatim>\<open>std::sort\<close> does not depend on the algorithm behind it.
\<close>

lemma sortData_unique:
  fixes xs :: "int32 list"
  assumes "mset ys = mset xs" and "sorted (map sint ys)"
  shows "sort_key sint xs = ys"
proof -
  have "mset (map sint ys) = mset (map sint xs)"
    using assms(1) by simp
  then have a: "sort (map sint xs) = map sint ys"
    using assms(2) by (rule properties_for_sort)
  have "mset (map sint (sort_key sint xs)) = mset (map sint xs)"
    by simp
  moreover have "sorted (map sint (sort_key sint xs))"
    by (rule sorted_sort_key)
  ultimately have b: "sort (map sint xs) = map sint (sort_key sint xs)"
    by (rule properties_for_sort)
  have "inj (sint :: int32 \<Rightarrow> int)"
    by (rule injI) (rule signed_word_eqI)
  with a b show ?thesis by simp
qed

lemma ascending_sorted: "ascending xs = sorted (map sint xs)"
  by (induction xs rule: ascending.induct)
    (simp_all only: ascending.simps list.map sorted2 sorted1 sorted0)

subsection \<open>Histories\<close>

lemma exec_Nil [simp]: "exec [] s = s"
  by (simp add: exec_def)

lemma exec_Cons [simp]: "exec (c # calls) s = exec calls (step c s)"
  by (simp add: exec_def)

lemma appended_Cons: "appended (c # calls) = appended [c] @ appended calls"
  by (cases c) simp_all

lemma step_mset: "mset (data (step c s)) = mset (data s) + mset (appended [c])"
  by (cases c) (simp_all add: addData_def sortData_def printData_def getSum_def)

lemma exec_mset: "mset (data (exec calls s)) = mset (data s) + mset (appended calls)"
proof (induction calls arbitrary: s)
  case Nil
  show ?case by simp
next
  case (Cons c calls)
  have "mset (data (exec (c # calls) s)) = mset (data (step c s)) + mset (appended calls)"
    by (simp add: Cons.IH)
  also have "\<dots> = mset (data s) + mset (appended [c] @ appended calls)"
    by (simp add: step_mset)
  finally show ?case by (simp only: appended_Cons [of c calls])
qed

lemma exec_unsorted:
  "SortData \<notin> set calls \<Longrightarrow> data (exec calls s) = data s @ appended calls"
proof (induction calls arbitrary: s)
  case Nil
  show ?case by simp
next
  case (Cons c calls)
  then show ?case
    by (cases c) (simp_all add: addData_def printData_def getSum_def)
qed

lemma appended_map_AddData [simp]: "appended (map AddData vs) = vs"
  by (induction vs) simp_all

lemma exec_appends: "data (exec (map AddData vs) s) = data s @ vs"
  by (simp add: exec_unsorted image_iff)

section \<open>The claims\<close>

subsection \<open>C1: what \<open>getSum\<close> returns\<close>

text \<open>
  C1 as stated fails: after appending 2147483647 and 1 the arithmetic sum is 2147483648,
  which no \<^verbatim>\<open>int\<close> holds, and \<open>getSum\<close> returns -2147483648.
\<close>

theorem getSum_arith_sum_counterexample:
  "sint (fst (getSum (exec [AddData 2147483647, AddData 1] (construct [])))) = - 2147483648
   \<and> arith_sum (appended [AddData 2147483647, AddData 1]) = 2147483648
   \<and> sint (fst (getSum (exec [AddData 2147483647, AddData 1] (construct []))))
       \<noteq> arith_sum (appended [AddData 2147483647, AddData 1])"
  by (simp add: construct_def addData_def getSum_def arith_sum_def)

text \<open>
  C1, amended: after any history of calls whose appended values have an arithmetic sum in
  the signed 32-bit range, \<open>getSum\<close> returns that arithmetic sum; on a freshly constructed
  processor (nothing appended) it returns 0.
\<close>

theorem getSum_arith_sum:
  "(in_int32 (arith_sum (appended calls)) \<longrightarrow>
      sint (fst (getSum (exec calls (construct out)))) = arith_sum (appended calls))
   \<and> fst (getSum (construct out)) = 0"
proof -
  have "mset (data (exec calls (construct out))) = mset (appended calls)"
    by (simp add: exec_mset construct_def)
  then have "arith_sum (data (exec calls (construct out))) = arith_sum (appended calls)"
    by (rule arith_sum_mset)
  then have "sint (fst (getSum (exec calls (construct out)))) = wrap32 (arith_sum (appended calls))"
    by (simp add: sint_getSum)
  moreover have "fst (getSum (construct out)) = 0"
    by (simp add: getSum_def construct_def)
  ultimately show ?thesis
    by (simp add: wrap32_id_iff)
qed

text \<open>An instance: 5 appended, a sort, -7 appended, a print; the sum is -2.\<close>

theorem getSum_arith_sum_witness:
  "in_int32 (arith_sum (appended [AddData 5, SortData, AddData (- 7), PrintData]))
   \<and> sint (fst (getSum (exec [AddData 5, SortData, AddData (- 7), PrintData] (construct [])))) = - 2"
  using getSum_arith_sum [of "[AddData 5, SortData, AddData (- 7), PrintData]" "[]"]
  by (simp add: in_int32_def arith_sum_def)

subsection \<open>C2: \<open>sortData\<close> leaves the vector ascending\<close>

text \<open>
  C2: in every state, after \<open>sortData\<close> each stored element is at most its right
  neighbour (as signed values), in the order of the vector, which is the order
  \<open>printData\<close> writes; equivalently the signed values are sorted.
\<close>

theorem sortData_ascending:
  "ascending (data (sortData s)) \<and> sorted (map sint (data (sortData s)))"
  by (simp add: ascending_sorted sortData_def)

subsection \<open>C3: the run of 5, 2, 8, 1\<close>

text \<open>
  C3: with 5, 2, 8, 1 appended in this order to a fresh processor, \<open>printData\<close> writes
  \<^verbatim>\<open>5 2 8 1 \<close> and the line break (the character with code 10); after \<open>sortData\<close> it
  writes \<^verbatim>\<open>1 2 5 8 \<close> and the line break; \<open>getSum\<close> returns 16 before and after the
  sort. The driver as a whole writes the three lines of the last conjunct, each ended by
  the line break, and returns 0.
\<close>

theorem scenario_5_2_8_1:
  "cout (printData (exec [AddData 5, AddData 2, AddData 8, AddData 1] (construct out)))
     = out @ ''5 2 8 1 '' @ [CHR 0x0A]
   \<and> cout (printData (sortData (exec [AddData 5, AddData 2, AddData 8, AddData 1] (construct out))))
     = out @ ''1 2 5 8 '' @ [CHR 0x0A]
   \<and> sint (fst (getSum (exec [AddData 5, AddData 2, AddData 8, AddData 1] (construct out)))) = 16
   \<and> sint (fst (getSum (sortData (exec [AddData 5, AddData 2, AddData 8, AddData 1] (construct out))))) = 16
   \<and> main [] = (0, ''Original data: 5 2 8 1 '' @ [CHR 0x0A] @ ''Sorted data: 1 2 5 8 '' @ [CHR 0x0A]
                     @ ''Sum: 16'' @ [CHR 0x0A])"
  by (simp add: main_def construct_def addData_def sortData_def printData_def getSum_def
      decimal_def to_digits.simps digit_char_def endl_def)

subsection \<open>C4: the vector holds what was appended\<close>

text \<open>
  C4: the vector is empty at construction; after any history of calls it holds exactly
  the multiset of the values appended (duplicates kept, nothing added or dropped);
  \<open>addData\<close> puts its value at the end; \<open>sortData\<close> only permutes; and a call changes the
  length by one if it is an \<open>addData\<close> and not at all otherwise, so the vector never
  shrinks and grows by appending only.
\<close>

theorem data_is_appended_multiset:
  "data (construct out) = []
   \<and> mset (data (exec calls (construct out))) = mset (appended calls)
   \<and> data (addData v s) = data s @ [v]
   \<and> mset (data (sortData s)) = mset (data s)
   \<and> length (data (step c s)) = length (data s) + (case c of AddData v \<Rightarrow> 1 | _ \<Rightarrow> 0)"
proof -
  have "length (data (step c s)) = length (data s) + (case c of AddData v \<Rightarrow> 1 | _ \<Rightarrow> 0)"
    by (cases c) (simp_all add: addData_def sortData_def printData_def getSum_def)
  moreover have "mset (data (exec calls (construct out))) = mset (appended calls)"
    by (simp add: exec_mset construct_def)
  ultimately show ?thesis
    by (simp add: construct_def addData_def sortData_def)
qed

subsection \<open>C5: sorting keeps the sum\<close>

text \<open>
  C5: in every state, \<open>getSum\<close> returns the same value after \<open>sortData\<close> as before it
  (wrap-around addition is commutative, so this holds also when the sum overflows).
\<close>

theorem getSum_sortData: "fst (getSum (sortData s)) = fst (getSum s)"
  by (simp add: getSum_def sortData_def getSum_loop_eq sum_list_sort_key)

subsection \<open>C6: before a sort, \<open>printData\<close> follows the order of appending\<close>

text \<open>
  C6: after a history of calls without \<open>sortData\<close>, \<open>printData\<close> adds to the stream the
  decimal forms of the appended values in the order they were appended, each followed by
  a space, and then the line break.
\<close>

theorem printData_append_order:
  "SortData \<notin> set calls \<Longrightarrow>
     cout (printData (exec calls (construct out)))
       = cout (exec calls (construct out))
         @ concat (map (\<lambda>v. decimal (sint v) @ '' '') (appended calls)) @ endl"
  by (simp add: printData_cout exec_unsorted construct_def)

text \<open>An instance: 30, a print, then -4 and 30 again.\<close>

theorem printData_append_order_witness:
  "SortData \<notin> set [AddData 30, PrintData, AddData (- 4), AddData 30]
   \<and> cout (printData (exec [AddData 30, PrintData, AddData (- 4), AddData 30] (construct [])))
       = ''30 '' @ endl @ ''30 -4 30 '' @ endl"
  using printData_append_order [of "[AddData 30, PrintData, AddData (- 4), AddData 30]" "[]"]
  by (simp add: construct_def addData_def printData_def getSum_def
      decimal_def to_digits.simps digit_char_def)

subsection \<open>C7: the line \<open>printData\<close> writes\<close>

text \<open>
  C7: in every state \<open>printData\<close> adds one line to the stream: the decimal forms of the
  elements with a single space between neighbours (and one more space after the last
  element, when there is one), then the line break, the character with code 10. The
  text before the line break holds no line break. The decimal form of an integer is
  made of the ten digits and the minus sign only (so it holds no space, and the spaces
  are the separators), and reading it back as a decimal numeral gives the integer; it is
  \<^verbatim>\<open>0\<close> for 0, \<^verbatim>\<open>-2147483648\<close> for the least \<^verbatim>\<open>int\<close> and \<^verbatim>\<open>2147483647\<close> for the
  greatest. With -12, 0 and 305 stored the line is \<^verbatim>\<open>-12 0 305 \<close> and the line break;
  with an empty vector it is the line break alone.
\<close>

theorem printData_format:
  "cout (printData s)
     = cout s @ separated (map (\<lambda>v. decimal (sint v)) (data s))
         @ (if data s = [] then [] else '' '') @ [CHR 0x0A]
   \<and> CHR 0x0A \<notin> set (separated (map (\<lambda>v. decimal (sint v)) (data s)))
   \<and> CHR '' '' \<notin> set (decimal i)
   \<and> set (decimal i) \<subseteq> set ''-0123456789''
   \<and> read_decimal (decimal i) = i
   \<and> decimal 0 = ''0''
   \<and> decimal (sint (- 2147483648 :: int32)) = ''-2147483648''
   \<and> decimal (sint (2147483647 :: int32)) = ''2147483647''
   \<and> cout (printData \<lparr>data = [- 12, 0, 305], cout = ''>''\<rparr>) = ''>-12 0 305 '' @ [CHR 0x0A]
   \<and> cout (printData (s\<lparr>data := []\<rparr>)) = cout s @ [CHR 0x0A]"
proof -
  have "concat (map (\<lambda>v. decimal (sint v) @ '' '') (data s))
      = concat (map (\<lambda>w. w @ '' '') (map (\<lambda>v. decimal (sint v)) (data s)))"
    by (simp add: comp_def)
  also have "\<dots> = separated (map (\<lambda>v. decimal (sint v)) (data s))
      @ (if data s = [] then [] else '' '')"
    by (simp only: separated_concat map_is_Nil_conv)
  finally have line: "cout (printData s)
     = cout s @ separated (map (\<lambda>v. decimal (sint v)) (data s))
         @ (if data s = [] then [] else '' '') @ [CHR 0x0A]"
    by (simp add: printData_cout endl_def)
  have single: "CHR 0x0A \<notin> set (separated (map (\<lambda>v. decimal (sint v)) (data s)))"
  proof
    assume "CHR 0x0A \<in> set (separated (map (\<lambda>v. decimal (sint v)) (data s)))"
    then have "\<exists>w\<in>set (map (\<lambda>v. decimal (sint v)) (data s)). CHR 0x0A \<in> set w"
      using separated_chars by fastforce
    then show False
      using decimal_no_separator by auto
  qed
  have space: "CHR '' '' \<notin> set (decimal i)"
    using decimal_no_separator [of i] by simp
  have chars: "set (decimal i) \<subseteq> set ''-0123456789''"
    by (rule decimal_chars)
  have reread: "read_decimal (decimal i) = i"
    by (rule read_decimal_decimal)
  have zero: "decimal 0 = ''0''"
    by (simp add: decimal_def to_digits.simps digit_char_def)
  have least: "decimal (sint (- 2147483648 :: int32)) = ''-2147483648''"
    by (simp add: decimal_def to_digits.simps digit_char_def)
  have greatest: "decimal (sint (2147483647 :: int32)) = ''2147483647''"
    by (simp add: decimal_def to_digits.simps digit_char_def)
  have three: "cout (printData \<lparr>data = [- 12, 0, 305], cout = ''>''\<rparr>)
      = ''>-12 0 305 '' @ [CHR 0x0A]"
    by (simp add: printData_def endl_def decimal_def to_digits.simps digit_char_def)
  have empty: "cout (printData (s\<lparr>data := []\<rparr>)) = cout s @ [CHR 0x0A]"
    by (simp add: printData_cout endl_def)
  from line single space chars reread zero least greatest three empty show ?thesis
    by (intro conjI)
qed

subsection \<open>C8: sorting twice is sorting once\<close>

text \<open>
  C8: in every state, \<open>sortData\<close> called twice in a row gives the state that one call
  gives; on a vector of at most one element it changes nothing.
\<close>

theorem sortData_idempotent:
  "sortData (sortData s) = sortData s \<and> (length (data s) \<le> 1 \<longrightarrow> sortData s = s)"
proof -
  have "sort_key sint (sort_key sint (data s)) = sort_key sint (data s)"
    by (rule sort_key_id_if_sorted) (rule sorted_sort_key)
  moreover have "sort_key sint xs = xs" if "length xs \<le> 1" for xs :: "int32 list"
    using that by (cases xs) simp_all
  ultimately show ?thesis
    by (simp add: sortData_def)
qed

text \<open>An instance: a vector holding 7 alone.\<close>

theorem sortData_idempotent_witness:
  "length (data \<lparr>data = [7], cout = ''x''\<rparr>) \<le> 1
   \<and> sortData \<lparr>data = [7], cout = ''x''\<rparr> = \<lparr>data = [7], cout = ''x''\<rparr>"
  using sortData_idempotent [of "\<lparr>data = [7], cout = ''x''\<rparr>"]
  by simp

subsection \<open>C9: printing and summing leave the vector alone\<close>

text \<open>
  C9: in every state, \<open>printData\<close> leaves the vector as it was (same elements, same
  order; only the stream grows), and \<open>getSum\<close> leaves the whole state as it was.
\<close>

theorem observers_keep_data:
  "data (printData s) = data s \<and> snd (getSum s) = s"
  by (simp add: printData_def getSum_def)

subsection \<open>C10: the sum is taken modulo \<open>2 ^ 32\<close>\<close>

text \<open>
  C10 as stated fails in its last part: after appending 2147483647, 1 and -1 the
  partial sum 2147483648 does not fit, yet the second overflow undoes the first and
  \<open>getSum\<close> returns the true arithmetic sum 2147483647.
\<close>

theorem getSum_wraps_counterexample:
  "sint (fst (getSum (exec (map AddData [2147483647, 1, - 1]) (construct []))))
     = arith_sum [2147483647, 1, - 1]
   \<and> \<not> partial_sums_fit 0 [2147483647, 1, - 1]"
  by (simp add: construct_def addData_def getSum_def arith_sum_def in_int32_def)

text \<open>
  C10, amended: for every list of appended values, \<open>getSum\<close> (accumulating in 32 bits
  with wrap-around) returns their arithmetic sum reduced modulo \<open>2 ^ 32\<close> to the signed
  32-bit range; it equals the arithmetic sum exactly when that sum is in the range,
  and so in particular whenever every partial sum is.
\<close>

theorem getSum_wraps:
  "sint (fst (getSum (exec (map AddData vs) (construct out)))) = wrap32 (arith_sum vs)
   \<and> (sint (fst (getSum (exec (map AddData vs) (construct out)))) = arith_sum vs
        \<longleftrightarrow> in_int32 (arith_sum vs))
   \<and> (partial_sums_fit 0 vs \<longrightarrow>
        sint (fst (getSum (exec (map AddData vs) (construct out)))) = arith_sum vs)"
proof -
  have eq: "sint (fst (getSum (exec (map AddData vs) (construct out)))) = wrap32 (arith_sum vs)"
    by (simp add: sint_getSum exec_appends construct_def)
  have "in_int32 (arith_sum vs)" if "partial_sums_fit 0 vs"
    using partial_sums_fit_total [OF that] by (simp add: in_int32_def)
  with eq show ?thesis
    by (simp add: wrap32_id_iff)
qed

text \<open>An instance: 2147483647, -5 and 5, where every partial sum fits.\<close>

theorem getSum_wraps_witness:
  "partial_sums_fit 0 [2147483647, - 5, 5]
   \<and> sint (fst (getSum (exec (map AddData [2147483647, - 5, 5]) (construct [])))) = 2147483647"
  using getSum_wraps [of "[2147483647, - 5, 5]" "[]"]
  by (simp add: in_int32_def arith_sum_def)

end
